theory Spec2Isabelle
  imports Main "HOL-Library.Word"
begin

section \<open>Errors\<close>

text \<open>
  The package's sentinel errors (\<open>ErrNodeNotFound\<close>, \<open>ErrBadGateway\<close>), redigo's
  \<open>ErrNil\<close> (the reply to \<open>GET\<close> of a missing key, as \<open>redis.String\<close> reports it),
  errors of the outside world (network, JSON), and wrapping (\<open>fmt.Errorf\<close> with \<open>%w\<close>,
  \<open>errors.Wrapf\<close>), which keeps the wrapped error reachable for \<open>errors.Is\<close>.
\<close>

datatype error =
    ErrNodeNotFound
  | ErrBadGateway
  | ErrLikelyDown
    \<comment> \<open>Modelled from the spec: the declaration of \<open>ErrLikelyDown\<close> is not among the
        sources; section 7 of the specification lists LikelyDown as an error of its own
        beside BadGateway, and the sibling sentinels are each an \<open>errors.New\<close>.\<close>
  | ErrNil
  | External string
  | Errorf string error
  | Wrap string error

fun errors_Is :: "error \<Rightarrow> error \<Rightarrow> bool" where
  "errors_Is (Errorf m e) target = (Errorf m e = target \<or> errors_Is e target)"
| "errors_Is (Wrap m e) target = (Wrap m e = target \<or> errors_Is e target)"
| "errors_Is e target = (e = target)"

text \<open>
  The text of an error. \<open>fmt.Errorf\<close> puts the wrapped text where its \<open>%w\<close> stands, here
  always at the end; \<open>errors.Wrapf\<close> puts its message and a colon in front.
\<close>

fun Error :: "error \<Rightarrow> string" where
  "Error ErrNodeNotFound = ''node not found''"
| "Error ErrBadGateway = ''bad gateway''"
| "Error ErrLikelyDown = ''likely down''"
| "Error ErrNil = ''redigo: nil returned''"
| "Error (External m) = m"
| "Error (Errorf m e) = m @ Error e"
| "Error (Wrap m e) = m @ '': '' @ Error e"

section \<open>Data\<close>

text \<open>\<open>gridtypes.Capacity\<close>: five unsigned 64-bit counters.\<close>

record Capacity =
  CRU :: "64 word"
  SRU :: "64 word"
  HRU :: "64 word"
  MRU :: "64 word"
  IPV4U :: "64 word"

record capacityResult =
  Total :: Capacity
  Used :: Capacity

text \<open>
  \<open>NodeInfo\<close> as \<open>fetchNodeData\<close> builds it. The hardware inventory \<open>dmi.DMI\<close> belongs to
  another package and is never inspected here: it is the type parameter \<open>'d\<close>.
\<close>

record 'd NodeInfo =
  Capacity :: capacityResult
  DMI :: 'd
  Hypervisor :: string
  ZosVersion :: string

text \<open>
  The libraries are parameters of the model: \<open>Marshal\<close> and \<open>Unmarshal\<close> of
  \<open>encoding/json\<close> for \<open>NodeInfo\<close>, and \<open>Sprintf\<close> of \<open>fmt\<close> on a format with no
  operands, which is how \<open>errors.Wrapf\<close> makes its message when it is given a format
  only. \<open>Serialize\<close> and \<open>Deserialize\<close> wrap their errors as the methods do.
\<close>

record 'd json =
  Marshal :: "'d NodeInfo \<Rightarrow> error + string"
  Unmarshal :: "string \<Rightarrow> error + 'd NodeInfo"
  Sprintf :: "string \<Rightarrow> string"

definition Serialize :: "'d json \<Rightarrow> 'd NodeInfo \<Rightarrow> error + string" where
  "Serialize J n =
     (case Marshal J n of
        Inl err \<Rightarrow> Inl (Wrap ''failed to serialize json data for node info struct'' err)
      | Inr bytes \<Rightarrow> Inr bytes)"

definition Deserialize :: "'d json \<Rightarrow> string \<Rightarrow> error + 'd NodeInfo" where
  "Deserialize J data =
     (case Unmarshal J data of
        Inl err \<Rightarrow> Inl (Wrap ''failed to deserialize json data for node info struct'' err)
      | Inr n \<Rightarrow> Inr n)"

text \<open>The fields of \<open>node\<close> that \<open>listNodes\<close> reads or writes; the others pass through.\<close>

record location =
  Country :: string
  City :: string

record node =
  NodeID :: int
  country :: string
  city :: string
  TotalResources :: Capacity
  UsedResources :: Capacity
  Location :: location
  Status :: string

section \<open>The outside world and the state of the server\<close>

text \<open>
  What the collaborators answer during one call: the Directory (the three GraphQL
  queries, each an error or the decoded rows), the node behind a twin id (the four RMB
  calls of \<open>client.NodeClient\<close>), and whether a command reaches the Redis server
  (\<open>None\<close>) or \<open>conn.Do\<close> fails with an error.
\<close>

record 'd world =
  queryTwinId :: "string \<Rightarrow> error + 32 word list"
  queryNodeIds :: "error + int list"
  queryNodes :: "int \<Rightarrow> int \<Rightarrow> string \<Rightarrow> string \<Rightarrow> error + node list"
  Counters :: "32 word \<Rightarrow> error + Capacity \<times> Capacity"
  SystemVersion :: "32 word \<Rightarrow> error + string"
  SystemHypervisor :: "32 word \<Rightarrow> error + string"
  SystemDMI :: "32 word \<Rightarrow> error + 'd"
  redisGET :: "error option"
  redisSET :: "error option"
  redisDEL :: "error option"

text \<open>
  The state: the Redis store (value and the second at which the key expires), the
  process-local go-cache, the clock in seconds, and two counters that only record how
  often the Directory and a node were called.

  go-cache keeps twin ids under the bare node id, with an expiration, and hypervisor
  names and DMI under \<open>node_<id>_hypervisor\<close> and \<open>node_<id>_dmi\<close>, without one. Node ids
  are decimal numerals (the routes admit \<open>[0-9]+\<close>, the refresher prints an \<open>int\<close>), so the
  three families of keys never meet and the cache is kept as three maps.
  \<open>lruCreated\<close> is the second at which \<open>Setup\<close> created the cache: its janitor runs
  every \<open>cleanupInterval\<close> from then on.
\<close>

record 'd App =
  redis :: "string \<rightharpoonup> string \<times> nat"
  lruTwin :: "string \<rightharpoonup> 32 word \<times> nat"
  lruHypervisor :: "string \<rightharpoonup> string"
  lruDMI :: "string \<rightharpoonup> 'd"
  lruCreated :: nat
  now :: nat
  directoryQueries :: nat
  probeCalls :: nat

text \<open>\<open>Setup\<close>: \<open>cache.New(2*time.Minute, 3*time.Minute)\<close>, in seconds.\<close>

definition defaultExpiration :: nat where
  "defaultExpiration = 2 * 60"

definition cleanupInterval :: nat where
  "cleanupInterval = 3 * 60"

definition Setup :: "(string \<rightharpoonup> string \<times> nat) \<Rightarrow> nat \<Rightarrow> 'd App" where
  "Setup store t =
     \<lparr> redis = store, lruTwin = Map.empty, lruHypervisor = Map.empty, lruDMI = Map.empty,
       lruCreated = t, now = t, directoryQueries = 0, probeCalls = 0 \<rparr>"

section \<open>Redis\<close>

definition getNodeKey :: "string \<Rightarrow> string" where
  "getNodeKey nodeID = ''GRID3NODE:'' @ nodeID"

text \<open>\<open>SET key val EX expiration\<close>: the key expires \<open>expiration\<close> seconds from now.\<close>

definition SetRedisKey ::
  "'d world \<Rightarrow> string \<Rightarrow> string \<Rightarrow> nat \<Rightarrow> 'd App \<Rightarrow> error option \<times> 'd App" where
  "SetRedisKey w key val expiration a =
     (case redisSET w of
        Some err \<Rightarrow> (Some err, a)
      | None \<Rightarrow> (None, a\<lparr>redis := (redis a)(key \<mapsto> (val, now a + expiration))\<rparr>))"

text \<open>
  \<open>GET key\<close> through \<open>redis.String\<close>: a missing or expired key is the nil reply, which
  \<open>redis.String\<close> turns into \<open>ErrNil\<close>; the function then returns the empty string.
\<close>

definition GetRedisKey :: "'d world \<Rightarrow> string \<Rightarrow> 'd App \<Rightarrow> error + string" where
  "GetRedisKey w key a =
     (case redisGET w of
        Some err \<Rightarrow> Inl err
      | None \<Rightarrow>
          (case redis a key of
             None \<Rightarrow> Inl ErrNil
           | Some (s, expires) \<Rightarrow> if now a < expires then Inr s else Inl ErrNil))"

text \<open>The string of Go's pair \<open>(string, error)\<close>: empty beside an error.\<close>

definition str :: "error + string \<Rightarrow> string" where
  "str r = (case r of Inl _ \<Rightarrow> [] | Inr s \<Rightarrow> s)"

definition DeleteRedisKey :: "'d world \<Rightarrow> string \<Rightarrow> 'd App \<Rightarrow> error option \<times> 'd App" where
  \<comment> \<open>Modelled from the spec: \<open>DeleteRedisKey\<close> is not among the sources; the store's
      interface is \<open>GET\<close>, \<open>SET\<close> with expiration and \<open>DELETE\<close>, and the function
      is written after its two siblings.\<close>
  "DeleteRedisKey w key a =
     (case redisDEL w of
        Some err \<Rightarrow> (Some err, a)
      | None \<Rightarrow> (None, a\<lparr>redis := (redis a)(key := None)\<rparr>))"

section \<open>The identity cache\<close>

text \<open>
  go-cache: \<open>Set\<close> with \<open>DefaultExpiration\<close> stamps the item with now plus the default;
  \<open>Get\<close> misses an item once the clock is past its stamp; the janitor deletes, at each
  of its ticks, the items whose stamp lies before the tick.
\<close>

definition lruGetTwin :: "'d App \<Rightarrow> string \<Rightarrow> 32 word option" where
  "lruGetTwin a k =
     (case lruTwin a k of
        None \<Rightarrow> None
      | Some (v, expiration) \<Rightarrow> if now a > expiration then None else Some v)"

definition getNodeTwinID :: "'d world \<Rightarrow> string \<Rightarrow> 'd App \<Rightarrow> (error + 32 word) \<times> 'd App" where
  "getNodeTwinID w nodeID a =
     (case lruGetTwin a nodeID of
        Some twinID \<Rightarrow> (Inr twinID, a)
      | None \<Rightarrow>
          (let a1 = a\<lparr>directoryQueries := directoryQueries a + 1\<rparr> in
           case queryTwinId w nodeID of
             Inl err \<Rightarrow> (Inl (Errorf ''failed to query node '' err), a1)
           | Inr nodeStats \<Rightarrow>
               (case nodeStats of
                  [] \<Rightarrow> (Inl ErrNodeNotFound, a1)
                | twinID # _ \<Rightarrow>
                    (Inr twinID,
                     a1\<lparr>lruTwin := (lruTwin a1)(nodeID \<mapsto> (twinID, now a1 + defaultExpiration))\<rparr>))))"

text \<open>The janitor's last tick up to second \<open>t\<close>: ticks come every \<open>cleanupInterval\<close> after the
  cache was created.\<close>

definition lastTick :: "'d App \<Rightarrow> nat \<Rightarrow> nat" where
  "lastTick a t = lruCreated a + ((t - lruCreated a) div cleanupInterval) * cleanupInterval"

definition DeleteExpired :: "nat \<Rightarrow> (string \<rightharpoonup> 32 word \<times> nat) \<Rightarrow> (string \<rightharpoonup> 32 word \<times> nat)" where
  "DeleteExpired t items =
     (\<lambda>k. case items k of
             None \<Rightarrow> None
           | Some (v, expiration) \<Rightarrow> if t > expiration then None else Some (v, expiration))"

text \<open>
  \<open>d\<close> seconds pass and nothing else happens. A janitor tick that falls into the interval
  deletes what had expired before it; with no \<open>Set\<close> in between, the last such tick
  deletes all that the earlier ones did. Redis keys expire by the clock alone.
\<close>

definition advance :: "nat \<Rightarrow> 'd App \<Rightarrow> 'd App" where
  "advance d a =
     (let t = now a + d in
      a\<lparr> now := t,
         lruTwin := (if now a < lastTick a t \<and> lastTick a t \<le> t
                     then DeleteExpired (lastTick a t) (lruTwin a)
                     else lruTwin a) \<rparr>)"

section \<open>The fetch pipeline\<close>

definition getNodeHypervisor ::
  "'d world \<Rightarrow> string \<Rightarrow> 32 word \<Rightarrow> 'd App \<Rightarrow> (error + string) \<times> 'd App" where
  "getNodeHypervisor w nodeID twinID a =
     (let nodeKey = ''node_'' @ nodeID @ ''_hypervisor'' in
      case lruHypervisor a nodeKey of
        Some nodeHyperVisor \<Rightarrow> (Inr nodeHyperVisor, a)
      | None \<Rightarrow>
          (let a1 = a\<lparr>probeCalls := probeCalls a + 1\<rparr> in
           case SystemHypervisor w twinID of
             Inl err \<Rightarrow> (Inl err, a1)
           | Inr hypervisor \<Rightarrow>
               (Inr hypervisor, a1\<lparr>lruHypervisor := (lruHypervisor a1)(nodeKey \<mapsto> hypervisor)\<rparr>)))"

definition getNodeDMI ::
  "'d world \<Rightarrow> string \<Rightarrow> 32 word \<Rightarrow> 'd App \<Rightarrow> (error + 'd) \<times> 'd App" where
  "getNodeDMI w nodeID twinID a =
     (let nodeKey = ''node_'' @ nodeID @ ''_dmi'' in
      case lruDMI a nodeKey of
        Some nodeDMI \<Rightarrow> (Inr nodeDMI, a)
      | None \<Rightarrow>
          (let a1 = a\<lparr>probeCalls := probeCalls a + 1\<rparr> in
           case SystemDMI w twinID of
             Inl err \<Rightarrow> (Inl err, a1)
           | Inr dmiData \<Rightarrow> (Inr dmiData, a1\<lparr>lruDMI := (lruDMI a1)(nodeKey \<mapsto> dmiData)\<rparr>)))"

definition fetchNodeData :: "'d world \<Rightarrow> string \<Rightarrow> 'd App \<Rightarrow> (error + 'd NodeInfo) \<times> 'd App" where
  "fetchNodeData w nodeID a =
     (case getNodeTwinID w nodeID a of
        (Inl err, a1) \<Rightarrow> (Inl err, a1)
      | (Inr twinID, a1) \<Rightarrow>
          (let a2 = a1\<lparr>probeCalls := probeCalls a1 + 1\<rparr> in
           case Counters w twinID of
             Inl err \<Rightarrow> (Inl (Wrap ''error fetching node statistics'' err), a2)
           | Inr (total', used') \<Rightarrow>
               (let capacity = \<lparr>Total = total', Used = used'\<rparr>;
                    a3 = a2\<lparr>probeCalls := probeCalls a2 + 1\<rparr> in
                case SystemVersion w twinID of
                  Inl err \<Rightarrow> (Inl (Wrap ''error fetching node version'' err), a3)
                | Inr version \<Rightarrow>
                    (case getNodeHypervisor w nodeID twinID a3 of
                       (Inl err, a4) \<Rightarrow> (Inl (Wrap ''error fetching hypervisor'' err), a4)
                     | (Inr hypervisor, a4) \<Rightarrow>
                         (case getNodeDMI w nodeID twinID a4 of
                            (Inl err, a5) \<Rightarrow> (Inl (Wrap ''error fetching node dmi'' err), a5)
                          | (Inr dmiData, a5) \<Rightarrow>
                              (Inr \<lparr>Capacity = capacity, DMI = dmiData,
                                    Hypervisor = hypervisor, ZosVersion = version\<rparr>, a5))))))"

definition checkLikelyDown ::
  "'d json \<Rightarrow> 'd world \<Rightarrow> string \<Rightarrow> string \<Rightarrow> error \<Rightarrow> 'd App \<Rightarrow> (error + string) \<times> 'd App" where
  "checkLikelyDown J w data nodeID originalError a =
     (case Deserialize J data of
        Inl err \<Rightarrow> (Inl err, a)
      | Inr redisData \<Rightarrow>
          (let (err, a1) = SetRedisKey w (getNodeKey nodeID) ''likely down'' (10 * 60) a
           in (Inl ErrLikelyDown, a1)))"

text \<open>
  \<open>getNodeData\<close>. Where the fetch fails and nothing was cached, the new error wraps
  \<open>ErrBadGateway\<close>; \<open>errors.Wrapf\<close> is handed the text of the fetch error as its format
  and no operands, so the message is what \<open>Sprintf\<close> makes of that text.
\<close>

definition getNodeData ::
  "'d json \<Rightarrow> 'd world \<Rightarrow> string \<Rightarrow> bool \<Rightarrow> 'd App \<Rightarrow> (error + string) \<times> 'd App" where
  "getNodeData J w nodeID force a =
     (let val = str (GetRedisKey w (getNodeKey nodeID) a) in
      if val \<noteq> [] \<and> \<not> force then (Inr val, a)
      else
        (case fetchNodeData w nodeID a of
           (Inl fetchingNodesError, a1) \<Rightarrow>
             if errors_Is fetchingNodesError ErrNodeNotFound then
               (let (err, a2) = DeleteRedisKey w (getNodeKey nodeID) a1
                in (Inl ErrNodeNotFound, a2))
             else if val \<noteq> [] then checkLikelyDown J w val nodeID fetchingNodesError a1
             else
               (let (err, a2) = DeleteRedisKey w (getNodeKey nodeID) a1
                in (Inl (Wrap (Sprintf J (Error fetchingNodesError)) ErrBadGateway), a2))
         | (Inr nodeInfo, a1) \<Rightarrow>
             (case Serialize J nodeInfo of
                Inl err \<Rightarrow> (Inl err, a1)
              | Inr serializedNodeInfo \<Rightarrow>
                  (let (err, a2) = SetRedisKey w (getNodeKey nodeID) serializedNodeInfo (30 * 60) a1
                   in (Inr serializedNodeInfo, a2)))))"

section \<open>The read path\<close>

text \<open>\<open>getNode\<close>: the HTTP status and the body written.\<close>

definition getNode :: "'d json \<Rightarrow> 'd world \<Rightarrow> string \<Rightarrow> 'd App \<Rightarrow> (nat \<times> string) \<times> 'd App" where
  "getNode J w nodeID a =
     (case getNodeData J w nodeID False a of
        (Inl err, a1) \<Rightarrow>
          if errors_Is err ErrNodeNotFound then ((404, ''Not Found''), a1)
          else if errors_Is err ErrBadGateway then ((502, ''Bad Gateway''), a1)
          else ((500, ''Internal Server Error''), a1)
      | (Inr nodeData, a1) \<Rightarrow> ((200, nodeData), a1))"

text \<open>
  \<open>getNodeStatus\<close>: the \<open>Status\<close> of the response it writes, \<open>None\<close> when it writes none
  (an empty value stored under the key).
\<close>

definition getNodeStatus :: "'d world \<Rightarrow> string \<Rightarrow> 'd App \<Rightarrow> string option" where
  "getNodeStatus w nodeID a =
     (case GetRedisKey w (getNodeKey nodeID) a of
        Inl err \<Rightarrow> Some ''down''
      | Inr isStored \<Rightarrow>
          if isStored = ''likely down'' then Some ''likely down''
          else if isStored \<noteq> [] then Some ''up''
          else None)"

text \<open>\<open>fmt.Sprint\<close> of an \<open>int\<close>: its decimal numeral.\<close>

fun utoa :: "nat \<Rightarrow> string" where
  "utoa n = (if n < 10 then [''0123456789'' ! n]
             else utoa (n div 10) @ [''0123456789'' ! (n mod 10)])"

definition Sprint :: "int \<Rightarrow> string" where
  "Sprint i = (if i < 0 then CHR ''-'' # utoa (nat (- i)) else utoa (nat i))"

definition getNodeCapacity ::
  "'d json \<Rightarrow> 'd world \<Rightarrow> string \<Rightarrow> bool \<Rightarrow> 'd App \<Rightarrow> (error + capacityResult) \<times> 'd App" where
  \<comment> \<open>Modelled from the spec: \<open>getNodeCapacity\<close> is not among the sources; \<open>listNodes\<close>
      attaches "the cached capacity figures", so it reads the node's data through
      \<open>getNodeData\<close> and takes the capacity of the deserialized snapshot.\<close>
  "getNodeCapacity J w nodeID force a =
     (case getNodeData J w nodeID force a of
        (Inl err, a1) \<Rightarrow> (Inl err, a1)
      | (Inr data, a1) \<Rightarrow>
          (case Deserialize J data of
             Inl err \<Rightarrow> (Inl err, a1)
           | Inr nodeInfo \<Rightarrow> (Inr (Capacity nodeInfo), a1)))"

text \<open>
  The loop of \<open>listNodes\<close> over the rows of the Directory page. \<open>capacityOf\<close> stands for
  \<open>a.getNodeCapacity\<close>; a row whose capacity cannot be read is skipped (\<open>continue\<close>).
\<close>

fun listNodesLoop ::
  "(string \<Rightarrow> bool \<Rightarrow> 'd App \<Rightarrow> (error + capacityResult) \<times> 'd App) \<Rightarrow> 'd world \<Rightarrow>
   node list \<Rightarrow> 'd App \<Rightarrow> node list \<times> 'd App" where
  "listNodesLoop capacityOf w [] a = ([], a)"
| "listNodesLoop capacityOf w (n # ns) a =
     (let r = GetRedisKey w (getNodeKey (Sprint (NodeID n))) a;
          isStored = str r;
          n1 = (case r of Inl err \<Rightarrow> n\<lparr>Status := ''down''\<rparr> | Inr _ \<Rightarrow> n);
          n2 = (if isStored = ''likely down'' then n1\<lparr>Status := ''likely down''\<rparr> else n1);
          n3 = (if isStored \<noteq> [] \<and> isStored \<noteq> ''likely down'' then n2\<lparr>Status := ''up''\<rparr> else n2);
          n4 = n3\<lparr>Location := \<lparr>Country = country n3, City = city n3\<rparr>\<rparr>
      in if Status n4 = ''up'' then
           (case capacityOf (Sprint (NodeID n)) False a of
              (Inl err, a1) \<Rightarrow> listNodesLoop capacityOf w ns a1
            | (Inr capacity, a1) \<Rightarrow>
                (let (nodeList, a2) = listNodesLoop capacityOf w ns a1
                 in (n4\<lparr>TotalResources := Total capacity, UsedResources := Used capacity\<rparr> # nodeList, a2)))
         else
           (let (nodeList, a2) = listNodesLoop capacityOf w ns a
            in (n4 # nodeList, a2)))"

text \<open>
  \<open>listNodes\<close> after its query parameters are parsed: the HTTP status and the rows
  written.
\<close>

definition listNodes ::
  "(string \<Rightarrow> bool \<Rightarrow> 'd App \<Rightarrow> (error + capacityResult) \<times> 'd App) \<Rightarrow> 'd world \<Rightarrow>
   int \<Rightarrow> int \<Rightarrow> string \<Rightarrow> string \<Rightarrow> 'd App \<Rightarrow> (nat \<times> node list) \<times> 'd App" where
  "listNodes capacityOf w maxResult pageOffset isSpecificFarm isGateway a =
     (let a0 = a\<lparr>directoryQueries := directoryQueries a + 1\<rparr> in
      case queryNodes w maxResult pageOffset isSpecificFarm isGateway of
        Inl err \<Rightarrow> ((500, []), a0)
      | Inr nodes \<Rightarrow>
          (let (nodeList, a1) = listNodesLoop capacityOf w nodes a0
           in ((200, nodeList), a1)))"

section \<open>The fleet refresher\<close>

definition maxGoRoutnes :: nat where
  "maxGoRoutnes = 30"

text \<open>
  One cycle as far as the caches see it: \<open>getNodeData\<close> with \<open>force\<close> for every node id
  the Directory lists, one after the other. The workers of one cycle write different
  keys, so the order between them does not show in the store.
\<close>

definition cacheNodesInfo :: "'d json \<Rightarrow> 'd world \<Rightarrow> 'd App \<Rightarrow> 'd App" where
  "cacheNodesInfo J w a =
     (let a0 = a\<lparr>directoryQueries := directoryQueries a + 1\<rparr> in
      case queryNodeIds w of
        Inl err \<Rightarrow> a0
      | Inr nodeIds \<Rightarrow> fold (\<lambda>nid s. snd (getNodeData J w (Sprint nid) True s)) nodeIds a0)"

text \<open>
  The same cycle as its goroutines run it. \<open>channelLimit\<close> is a channel with room for
  \<open>maxGoRoutnes\<close> tokens. The loop sends a token (and waits while the channel is full),
  then starts the worker; the worker calls \<open>getNodeData\<close> and then receives a token. The
  deferred \<open>close\<close> runs when the loop is through; a receive from a closed channel takes
  a remaining token, or returns at once when there is none. A schedule is the order in
  which these steps happen; a step that cannot happen now has no successor.
\<close>

record cycle =
  rest :: "int list"
  sent :: "int option"
  fetching :: "int list"
  fetched :: nat
  channelLimit :: nat
  closed :: bool

datatype action = Send | Go | Return int | Receive | Close

definition startCycle :: "int list \<Rightarrow> cycle" where
  "startCycle nodeIds =
     \<lparr>rest = nodeIds, sent = None, fetching = [], fetched = 0, channelLimit = 0, closed = False\<rparr>"

fun step :: "action \<Rightarrow> cycle \<Rightarrow> cycle option" where
  "step Send c =
     (case (sent c, rest c) of
        (None, nid # nids) \<Rightarrow>
          if channelLimit c < maxGoRoutnes
          then Some (c\<lparr>rest := nids, sent := Some nid, channelLimit := channelLimit c + 1\<rparr>)
          else None
      | _ \<Rightarrow> None)"
| "step Go c =
     (case sent c of
        Some nid \<Rightarrow> Some (c\<lparr>sent := None, fetching := nid # fetching c\<rparr>)
      | None \<Rightarrow> None)"
| "step (Return nid) c =
     (if nid \<in> set (fetching c)
      then Some (c\<lparr>fetching := remove1 nid (fetching c), fetched := fetched c + 1\<rparr>)
      else None)"
| "step Receive c =
     (if fetched c = 0 then None
      else if channelLimit c > 0
      then Some (c\<lparr>fetched := fetched c - 1, channelLimit := channelLimit c - 1\<rparr>)
      else if closed c then Some (c\<lparr>fetched := fetched c - 1\<rparr>)
      else None)"
| "step Close c =
     (if rest c = [] \<and> sent c = None \<and> \<not> closed c then Some (c\<lparr>closed := True\<rparr>) else None)"

fun schedule :: "action list \<Rightarrow> cycle \<Rightarrow> cycle option" where
  "schedule [] c = Some c"
| "schedule (s # ss) c = (case step s c of None \<Rightarrow> None | Some c' \<Rightarrow> schedule ss c')"

section \<open>Histories\<close>

datatype 'd event =
    CallGetNodeData "'d world" string bool
  | CallCacheNodesInfo "'d world"
  | Wait nat

fun run :: "'d json \<Rightarrow> 'd event list \<Rightarrow> 'd App \<Rightarrow> 'd App" where
  "run J [] a = a"
| "run J (CallGetNodeData w nodeID force # es) a = run J es (snd (getNodeData J w nodeID force a))"
| "run J (CallCacheNodesInfo w # es) a = run J es (cacheNodesInfo J w a)"
| "run J (Wait d # es) a = run J es (advance d a)"

text \<open>
  What the store may hold under a key: the marker, or a serialized snapshot.
\<close>

definition storedOK :: "'d json \<Rightarrow> 'd App \<Rightarrow> bool" where
  "storedOK J a =
     (\<forall>key v expires. redis a key = Some (v, expires) \<longrightarrow>
        v = ''likely down'' \<or> (\<exists>nodeInfo. Serialize J nodeInfo = Inr v))"

section \<open>A concrete node\<close>

text \<open>
  Node 42 with twin 7, four cores of which one is used, and the JSON text that
  \<open>encoding/json\<close> writes for its \<open>NodeInfo\<close> (with an empty inventory).
\<close>

definition total42 :: Capacity where
  "total42 = \<lparr>CRU = 4, SRU = 0, HRU = 0, MRU = 0, IPV4U = 0\<rparr>"

definition used42 :: Capacity where
  "used42 = \<lparr>CRU = 1, SRU = 0, HRU = 0, MRU = 0, IPV4U = 0\<rparr>"

definition info42 :: "unit NodeInfo" where
  "info42 = \<lparr>Capacity = \<lparr>Total = total42, Used = used42\<rparr>, DMI = (),
             Hypervisor = ''kvm'', ZosVersion = ''3.0.0''\<rparr>"

definition jsonCapacity :: "Capacity \<Rightarrow> string" where
  \<open>jsonCapacity c =
     ''{"cru":'' @ utoa (unat (CRU c)) @ '',"sru":'' @ utoa (unat (SRU c)) @
     '',"hru":'' @ utoa (unat (HRU c)) @ '',"mru":'' @ utoa (unat (MRU c)) @
     '',"ipv4u":'' @ utoa (unat (IPV4U c)) @ ''}''\<close>

definition json42 :: string where
  \<open>json42 =
     ''{"capacity":{"total_resources":'' @ jsonCapacity total42 @
     '',"used_resources":'' @ jsonCapacity used42 @
     ''},"dmi":{},"hypervisor":"kvm","zosVersion":"3.0.0"}''\<close>

text \<open>
  The libraries on the texts that occur below: that document is read back as \<open>info42\<close>,
  and any other text here (the words \<open>likely down\<close>) is no JSON; the error texts here
  hold no \<open>%\<close>, and such a format is printed as it stands.
\<close>

definition J42 :: "unit json" where
  "J42 = \<lparr> Marshal = (\<lambda>n. if n = info42 then Inr json42 else Inl (External ''unsupported value'')),
           Unmarshal = (\<lambda>s. if s = json42 then Inr info42
                            else Inl (External ''invalid character'')),
           Sprintf = (\<lambda>format. format) \<rparr>"

text \<open>The row of node 42 in a Directory page: the query asks for no status.\<close>

definition row42 :: node where
  "row42 = \<lparr>NodeID = 42, country = ''BE'', city = ''Ghent'',
             TotalResources = \<lparr>CRU = 0, SRU = 0, HRU = 0, MRU = 0, IPV4U = 0\<rparr>,
             UsedResources = \<lparr>CRU = 0, SRU = 0, HRU = 0, MRU = 0, IPV4U = 0\<rparr>,
             Location = \<lparr>Country = [], City = []\<rparr>, Status = []\<rparr>"

text \<open>
  The world in which node 42 answers, the one in which it has stopped answering, and the
  one in which the Directory no longer knows it.
\<close>

definition up42 :: "unit world" where
  "up42 =
     \<lparr> queryTwinId = (\<lambda>nodeID. if nodeID = ''42'' then Inr [7] else Inr []),
       queryNodeIds = Inr [42],
       queryNodes = (\<lambda>maxResult pageOffset farm gateway. Inr [row42]),
       Counters = (\<lambda>twinID. if twinID = 7 then Inr (total42, used42) else Inl (External ''timeout'')),
       SystemVersion = (\<lambda>twinID. Inr ''3.0.0''),
       SystemHypervisor = (\<lambda>twinID. Inr ''kvm''),
       SystemDMI = (\<lambda>twinID. Inr ()),
       redisGET = None, redisSET = None, redisDEL = None \<rparr>"

definition down42 :: "unit world" where
  "down42 = up42\<lparr>Counters := (\<lambda>twinID. Inl (External ''context deadline exceeded''))\<rparr>"

definition gone42 :: "unit world" where
  "gone42 = up42\<lparr>queryTwinId := (\<lambda>nodeID. Inr [])\<rparr>"

text \<open>A server started at second 0 on a store that holds node 42's snapshot for 30 minutes.\<close>

definition cached42 :: "unit App" where
  "cached42 = Setup [getNodeKey ''42'' \<mapsto> (json42, 30 * 60)] 0"

text \<open>A server started at second 0 on an empty store.\<close>

definition empty0 :: "unit App" where
  "empty0 = Setup Map.empty 0"

section \<open>The cache hit\<close>

text \<open>
  C3. A non-forced \<open>getNodeData\<close> that finds a live entry (the key is present, has not
  expired, and \<open>GET\<close> reaches the store) returns the cached value at once and leaves the
  whole state as it was: the twin is not resolved, the Directory is not queried and the
  node is not called, so both call counters stay where they were. The value is not
  empty, as the marker and a JSON text are not: an empty value would count as a miss.
\<close>

theorem getNodeData_cached:
  assumes "redisGET w = None"
    and "redis a (getNodeKey nodeID) = Some (v, expires)"
    and "now a < expires"
    and "v \<noteq> []"
  shows "getNodeData J w nodeID False a = (Inr v, a)
       \<and> probeCalls (snd (getNodeData J w nodeID False a)) = probeCalls a
       \<and> directoryQueries (snd (getNodeData J w nodeID False a)) = directoryQueries a
       \<and> lruTwin (snd (getNodeData J w nodeID False a)) = lruTwin a"
  using assms by (simp add: getNodeData_def GetRedisKey_def str_def)

theorem getNodeData_cached_witness:
  "redisGET down42 = None
 \<and> redis cached42 (getNodeKey ''42'') = Some (json42, 30 * 60)
 \<and> now cached42 < 30 * 60
 \<and> json42 \<noteq> []
 \<and> getNodeData J42 down42 ''42'' False cached42 = (Inr json42, cached42)
 \<and> probeCalls (snd (getNodeData J42 down42 ''42'' False cached42)) = 0"
  using getNodeData_cached [of down42 cached42 "''42''" json42 "30 * 60" J42]
  by (simp add: down42_def up42_def cached42_def Setup_def json42_def)

section \<open>What a fetch leaves alone\<close>

text \<open>Resolving the twin and calling the node touch neither the store nor the clock.\<close>

lemma getNodeTwinID_frame:
  "redis (snd (getNodeTwinID w nodeID a)) = redis a \<and> now (snd (getNodeTwinID w nodeID a)) = now a"
  by (simp add: getNodeTwinID_def Let_def split: option.splits sum.splits list.splits)

lemma getNodeHypervisor_frame:
  "redis (snd (getNodeHypervisor w nodeID t a)) = redis a \<and> now (snd (getNodeHypervisor w nodeID t a)) = now a"
  by (simp add: getNodeHypervisor_def Let_def split: option.splits sum.splits)

lemma getNodeDMI_frame:
  "redis (snd (getNodeDMI w nodeID t a)) = redis a \<and> now (snd (getNodeDMI w nodeID t a)) = now a"
  by (simp add: getNodeDMI_def Let_def split: option.splits sum.splits)

lemma fetchNodeData_frame:
  "redis (snd (fetchNodeData w nodeID a)) = redis a \<and> now (snd (fetchNodeData w nodeID a)) = now a"
proof -
  obtain r1 a1 where g: "getNodeTwinID w nodeID a = (r1, a1)" by (cases "getNodeTwinID w nodeID a")
  have f1: "redis a1 = redis a \<and> now a1 = now a" using getNodeTwinID_frame[of w nodeID a] g by simp
  show ?thesis
  proof (cases r1)
    case (Inl e) then show ?thesis using g f1 by (simp add: fetchNodeData_def)
  next
    case (Inr t)
    let ?a3 = "a1\<lparr>probeCalls := probeCalls a1 + 1\<rparr>\<lparr>probeCalls := probeCalls (a1\<lparr>probeCalls := probeCalls a1 + 1\<rparr>) + 1\<rparr>"
    obtain r4 a4 where h: "getNodeHypervisor w nodeID t ?a3 = (r4, a4)" by (cases "getNodeHypervisor w nodeID t ?a3")
    have f4: "redis a4 = redis a \<and> now a4 = now a" using getNodeHypervisor_frame[of w nodeID t ?a3] h f1 by simp
    obtain r5 a5 where d: "getNodeDMI w nodeID t a4 = (r5, a5)" by (cases "getNodeDMI w nodeID t a4")
    have f5: "redis a5 = redis a \<and> now a5 = now a" using getNodeDMI_frame[of w nodeID t a4] d f4 by simp
    show ?thesis using g Inr f1 h f4 d f5
      by (simp add: fetchNodeData_def Let_def split: sum.splits prod.splits)
  qed
qed


section \<open>The branches of \<open>getNodeData\<close>\<close>

lemma fetch_not_found:
  assumes "lruGetTwin a nodeID = None" and "queryTwinId w nodeID = Inr []"
  shows "fst (fetchNodeData w nodeID a) = Inl ErrNodeNotFound"
  using assms by (simp add: fetchNodeData_def getNodeTwinID_def Let_def)

lemma getNodeData_on_not_found:
  assumes "force \<or> str (GetRedisKey w (getNodeKey nodeID) a) = []"
    and "fst (fetchNodeData w nodeID a) = Inl err"
    and "errors_Is err ErrNodeNotFound"
  shows "fst (getNodeData J w nodeID force a) = Inl ErrNodeNotFound"
    and "redisDEL w = None \<Longrightarrow> redis (snd (getNodeData J w nodeID force a)) (getNodeKey nodeID) = None"
  using assms
  by (auto simp add: getNodeData_def Let_def DeleteRedisKey_def split: prod.splits sum.splits option.splits)

lemma getNodeData_on_failure_with_value:
  assumes "redisGET w = None"
    and "redis a (getNodeKey nodeID) = Some (v, expires)"
    and "now a < expires"
    and "v \<noteq> []"
    and "Deserialize J v = Inr snapshot"
    and "fst (fetchNodeData w nodeID a) = Inl err"
    and "\<not> errors_Is err ErrNodeNotFound"
  shows "fst (getNodeData J w nodeID True a) = Inl ErrLikelyDown"
    and "redisSET w = None \<Longrightarrow>
         redis (snd (getNodeData J w nodeID True a)) (getNodeKey nodeID) = Some (''likely down'', now a + 10 * 60)"
    and "now (snd (getNodeData J w nodeID True a)) = now a"
proof -
  obtain a1 where f: "fetchNodeData w nodeID a = (Inl err, a1)"
    using assms(6) by (cases "fetchNodeData w nodeID a") auto
  have fr: "redis a1 = redis a \<and> now a1 = now a"
    using fetchNodeData_frame[of w nodeID a] f by simp
  have v: "str (GetRedisKey w (getNodeKey nodeID) a) = v"
    using assms(1-3) by (simp add: GetRedisKey_def str_def)
  have g: "getNodeData J w nodeID True a = checkLikelyDown J w v nodeID err a1"
    using f v assms(4,7) by (simp add: getNodeData_def)
  show "fst (getNodeData J w nodeID True a) = Inl ErrLikelyDown"
    using g assms(5) by (simp add: checkLikelyDown_def split: prod.splits)
  show "now (snd (getNodeData J w nodeID True a)) = now a"
    using g assms(5) fr by (auto simp add: checkLikelyDown_def SetRedisKey_def split: prod.splits option.splits)
  show "redis (snd (getNodeData J w nodeID True a)) (getNodeKey nodeID) = Some (''likely down'', now a + 10 * 60)"
    if "redisSET w = None"
    using g assms(5) fr that by (simp add: checkLikelyDown_def SetRedisKey_def)
qed

lemma getNodeData_on_failure_without_value:
  assumes "str (GetRedisKey w (getNodeKey nodeID) a) = []"
    and "fst (fetchNodeData w nodeID a) = Inl err"
    and "\<not> errors_Is err ErrNodeNotFound"
  shows "fst (getNodeData J w nodeID force a) = Inl (Wrap (Sprintf J (Error err)) ErrBadGateway)"
    and "redisDEL w = None \<Longrightarrow> redis (snd (getNodeData J w nodeID force a)) (getNodeKey nodeID) = None"
  using assms
  by (auto simp add: getNodeData_def Let_def DeleteRedisKey_def split: prod.splits sum.splits option.splits)

lemma status_of_marker:
  assumes "redis a key = Some (''likely down'', expires)" and "now a + d < expires" and "redisGET w = None"
  shows "GetRedisKey w key (advance d a) = Inr ''likely down''"
  using assms by (simp add: GetRedisKey_def advance_def Let_def)

lemma status_of_nothing:
  assumes "redis a (getNodeKey nodeID) = None"
  shows "getNodeStatus w nodeID (advance d a) = Some ''down''"
  using assms by (simp add: getNodeStatus_def GetRedisKey_def advance_def Let_def split: option.splits)


section \<open>Failed probes\<close>

lemmas fixture_defs = down42_def up42_def gone42_def cached42_def Setup_def J42_def

lemmas eval_defs = fixture_defs empty0_def getNodeData_def GetRedisKey_def str_def fetchNodeData_def
        getNodeTwinID_def lruGetTwin_def getNodeHypervisor_def getNodeDMI_def Let_def
        Serialize_def Deserialize_def SetRedisKey_def DeleteRedisKey_def checkLikelyDown_def
        getNode_def getNodeStatus_def listNodes_def getNodeCapacity_def Sprint_def row42_def

lemma fetch_down42:
  "fst (fetchNodeData down42 ''42'' cached42) =
     Inl (Wrap ''error fetching node statistics'' (External ''context deadline exceeded''))"
  by (simp add: fixture_defs fetchNodeData_def getNodeTwinID_def lruGetTwin_def Let_def)

text \<open>
  C4. The node's key holds a live snapshot (a non-empty value that \<open>Deserialize\<close>
  accepts), and the forced fetch fails with an error that is not \<open>ErrNodeNotFound\<close>.
  Then \<open>getNodeData\<close> fails with \<open>ErrLikelyDown\<close>, the key holds the words
  \<open>likely down\<close> and expires 10 minutes from now, and \<open>getNodeStatus\<close> answers
  \<open>likely down\<close> at any moment of these 10 minutes. The call is forced: a non-forced
  call on a live snapshot returns it without a probe. The store is taken to be
  reachable: a failed \<open>SET\<close> is only logged.
\<close>

theorem probe_failure_marks_likely_down:
  assumes "redisGET w = None" and "redisSET w = None"
    and "redis a (getNodeKey nodeID) = Some (v, expires)"
    and "now a < expires"
    and "v \<noteq> []"
    and "Deserialize J v = Inr snapshot"
    and "fst (fetchNodeData w nodeID a) = Inl err"
    and "\<not> errors_Is err ErrNodeNotFound"
  shows "fst (getNodeData J w nodeID True a) = Inl ErrLikelyDown
       \<and> redis (snd (getNodeData J w nodeID True a)) (getNodeKey nodeID)
           = Some (''likely down'', now a + 10 * 60)
       \<and> (\<forall>d w'. d < 10 * 60 \<and> redisGET w' = None \<longrightarrow>
             getNodeStatus w' nodeID (advance d (snd (getNodeData J w nodeID True a)))
               = Some ''likely down'')"
proof -
  let ?a' = "snd (getNodeData J w nodeID True a)"
  have r: "fst (getNodeData J w nodeID True a) = Inl ErrLikelyDown"
    using getNodeData_on_failure_with_value(1)[OF assms(1,3-8)] .
  have m: "redis ?a' (getNodeKey nodeID) = Some (''likely down'', now a + 10 * 60)"
    using getNodeData_on_failure_with_value(2)[OF assms(1,3-8) assms(2)] .
  have n: "now ?a' = now a"
    using getNodeData_on_failure_with_value(3)[OF assms(1,3-8)] .
  have "getNodeStatus w' nodeID (advance d ?a') = Some ''likely down''"
    if "d < 10 * 60" and "redisGET w' = None" for d w'
  proof -
    have "now ?a' + d < now a + 10 * 60" using n that(1) by simp
    then have "GetRedisKey w' (getNodeKey nodeID) (advance d ?a') = Inr ''likely down''"
      using status_of_marker[OF m _ that(2)] by simp
    then show ?thesis by (simp add: getNodeStatus_def)
  qed
  then show ?thesis using r m by blast
qed

theorem probe_failure_marks_likely_down_witness:
  "redisGET down42 = None \<and> redisSET down42 = None
 \<and> redis cached42 (getNodeKey ''42'') = Some (json42, 30 * 60)
 \<and> Deserialize J42 json42 = Inr info42
 \<and> fst (fetchNodeData down42 ''42'' cached42)
      = Inl (Wrap ''error fetching node statistics'' (External ''context deadline exceeded''))
 \<and> fst (getNodeData J42 down42 ''42'' True cached42) = Inl ErrLikelyDown
 \<and> redis (snd (getNodeData J42 down42 ''42'' True cached42)) (getNodeKey ''42'')
      = Some (''likely down'', 10 * 60)
 \<and> getNodeStatus up42 ''42'' (advance 599 (snd (getNodeData J42 down42 ''42'' True cached42)))
      = Some ''likely down''"
proof -
  have h1: "redisGET down42 = None" and h2: "redisSET down42 = None"
    by (simp_all add: fixture_defs)
  have h3: "redis cached42 (getNodeKey ''42'') = Some (json42, 30 * 60)"
    by (simp add: fixture_defs)
  have h4: "now cached42 < 30 * 60" by (simp add: fixture_defs)
  have h5: "json42 \<noteq> []" by (simp add: json42_def)
  have h6: "Deserialize J42 json42 = Inr info42" by (simp add: Deserialize_def J42_def)
  have h8: "\<not> errors_Is (Wrap ''error fetching node statistics'' (External ''context deadline exceeded'')) ErrNodeNotFound"
    by simp
  have h9: "(599::nat) < 10 * 60 \<and> redisGET up42 = None" by (simp add: fixture_defs)
  have n: "now cached42 = 0" by (simp add: fixture_defs)
  show ?thesis
    using probe_failure_marks_likely_down [OF h1 h2 h3 h4 h5 h6 fetch_down42 h8] h1 h2 h3 h6 h9 n
    by (simp add: fetch_down42)
qed


text \<open>
  C5. The Directory is asked for the node's twin (the call is forced or finds no live
  value, and the identity cache has no live twin id for the node) and reports no match.
  Then \<open>getNodeData\<close> fails with \<open>ErrNodeNotFound\<close>, the node's key is gone from the
  store whatever it held, \<open>getNode\<close> (which does not force, and so gets this far only
  when it reads no value) answers 404, and \<open>getNodeStatus\<close> answers \<open>down\<close> from then
  on.
\<close>

theorem not_found_clears_key:
  assumes "queryTwinId w nodeID = Inr []"
    and "lruGetTwin a nodeID = None"
    and "force \<or> str (GetRedisKey w (getNodeKey nodeID) a) = []"
    and "redisDEL w = None"
  shows "fst (getNodeData J w nodeID force a) = Inl ErrNodeNotFound
       \<and> redis (snd (getNodeData J w nodeID force a)) (getNodeKey nodeID) = None
       \<and> (str (GetRedisKey w (getNodeKey nodeID) a) = [] \<longrightarrow>
            fst (getNode J w nodeID a) = (404, ''Not Found''))
       \<and> (\<forall>d w'. getNodeStatus w' nodeID (advance d (snd (getNodeData J w nodeID force a)))
                    = Some ''down'')"
proof -
  have f: "fst (fetchNodeData w nodeID a) = Inl ErrNodeNotFound"
    using fetch_not_found[OF assms(2,1)] .
  have i: "errors_Is ErrNodeNotFound ErrNodeNotFound" by simp
  have r: "fst (getNodeData J w nodeID force a) = Inl ErrNodeNotFound"
    using getNodeData_on_not_found(1)[OF assms(3) f i] .
  have k: "redis (snd (getNodeData J w nodeID force a)) (getNodeKey nodeID) = None"
    using getNodeData_on_not_found(2)[OF assms(3) f i assms(4)] .
  have h: "fst (getNode J w nodeID a) = (404, ''Not Found'')"
    if "str (GetRedisKey w (getNodeKey nodeID) a) = []"
  proof -
    have "False \<or> str (GetRedisKey w (getNodeKey nodeID) a) = []" using that by simp
    then have "fst (getNodeData J w nodeID False a) = Inl ErrNodeNotFound"
      using f i by (rule getNodeData_on_not_found(1))
    then show ?thesis
      by (cases "getNodeData J w nodeID False a") (simp add: getNode_def)
  qed
  show ?thesis using r k h status_of_nothing[OF k] by blast
qed

theorem not_found_clears_key_witness:
  "queryTwinId gone42 ''42'' = Inr [] \<and> lruGetTwin cached42 ''42'' = None \<and> redisDEL gone42 = None
 \<and> redis cached42 (getNodeKey ''42'') = Some (json42, 30 * 60)
 \<and> fst (getNodeData J42 gone42 ''42'' True cached42) = Inl ErrNodeNotFound
 \<and> redis (snd (getNodeData J42 gone42 ''42'' True cached42)) (getNodeKey ''42'') = None
 \<and> getNodeStatus up42 ''42'' (advance 0 (snd (getNodeData J42 gone42 ''42'' True cached42)))
      = Some ''down''
 \<and> str (GetRedisKey gone42 (getNodeKey ''42'') empty0) = []
 \<and> fst (getNode J42 gone42 ''42'' empty0) = (404, ''Not Found'')"
proof -
  have h1: "queryTwinId gone42 ''42'' = Inr []" by (simp add: fixture_defs)
  have h2: "lruGetTwin cached42 ''42'' = None" by (simp add: fixture_defs lruGetTwin_def)
  have h2': "lruGetTwin empty0 ''42'' = None" by (simp add: empty0_def Setup_def lruGetTwin_def)
  have h3: "redisDEL gone42 = None" by (simp add: fixture_defs)
  have h4: "redis cached42 (getNodeKey ''42'') = Some (json42, 30 * 60)" by (simp add: fixture_defs)
  have h5: "str (GetRedisKey gone42 (getNodeKey ''42'') empty0) = []"
    by (simp add: empty0_def GetRedisKey_def str_def fixture_defs)
  have t: "True \<or> str (GetRedisKey gone42 (getNodeKey ''42'') cached42) = []" by simp
  have f: "False \<or> str (GetRedisKey gone42 (getNodeKey ''42'') empty0) = []" using h5 by simp
  show ?thesis
    using not_found_clears_key [OF h1 h2 t h3, of J42]
          not_found_clears_key [OF h1 h2' f h3, of J42] h1 h2 h3 h4 h5
    by simp
qed

text \<open>
  C6, as stated, at node 42 one refresher cycle after its probe first failed: the key
  holds the marker, which is no snapshot (\<open>Deserialize\<close> refuses it), and the forced
  fetch fails again. \<open>getNodeData\<close> takes the marker for a cached value and hands it to
  \<open>checkLikelyDown\<close>, which returns the error of \<open>Deserialize\<close>: an error that does not
  wrap \<open>ErrBadGateway\<close>. The key is not cleared: it holds the marker as before.
\<close>

theorem no_snapshot_bad_gateway_counterexample:
  "redis (snd (getNodeData J42 down42 ''42'' True cached42)) (getNodeKey ''42'')
     = Some (''likely down'', 10 * 60)
 \<and> Deserialize J42 ''likely down''
     = Inl (Wrap ''failed to deserialize json data for node info struct'' (External ''invalid character''))
 \<and> fst (fetchNodeData down42 ''42'' (snd (getNodeData J42 down42 ''42'' True cached42)))
     = Inl (Wrap ''error fetching node statistics'' (External ''context deadline exceeded''))
 \<and> fst (getNodeData J42 down42 ''42'' True (snd (getNodeData J42 down42 ''42'' True cached42)))
     = Inl (Wrap ''failed to deserialize json data for node info struct'' (External ''invalid character''))
 \<and> \<not> errors_Is (Wrap ''failed to deserialize json data for node info struct''
                     (External ''invalid character'')) ErrBadGateway
 \<and> redis (snd (getNodeData J42 down42 ''42'' True (snd (getNodeData J42 down42 ''42'' True cached42))))
       (getNodeKey ''42'')
     = Some (''likely down'', 10 * 60)"
  by (simp add: eval_defs json42_def)

text \<open>
  C6, amended. No value is read under the node's key (the key is absent or has expired,
  or \<open>GET\<close> does not reach the store), and the fetch fails with an error that is not
  \<open>ErrNodeNotFound\<close>. Then \<open>getNodeData\<close>, forced or not, deletes the key and fails
  with an error that wraps \<open>ErrBadGateway\<close>, and \<open>getNode\<close> answers 502.
\<close>

theorem probe_failure_bad_gateway:
  assumes "str (GetRedisKey w (getNodeKey nodeID) a) = []"
    and "fst (fetchNodeData w nodeID a) = Inl err"
    and "\<not> errors_Is err ErrNodeNotFound"
    and "redisDEL w = None"
  shows "fst (getNodeData J w nodeID force a) = Inl (Wrap (Sprintf J (Error err)) ErrBadGateway)
       \<and> errors_Is (Wrap (Sprintf J (Error err)) ErrBadGateway) ErrBadGateway
       \<and> redis (snd (getNodeData J w nodeID force a)) (getNodeKey nodeID) = None
       \<and> fst (getNode J w nodeID a) = (502, ''Bad Gateway'')"
proof -
  have r: "fst (getNodeData J w nodeID force a) = Inl (Wrap (Sprintf J (Error err)) ErrBadGateway)" for force
    using getNodeData_on_failure_without_value(1)[OF assms(1-3)] .
  have k: "redis (snd (getNodeData J w nodeID force a)) (getNodeKey nodeID) = None"
    using getNodeData_on_failure_without_value(2)[OF assms(1-3) assms(4)] .
  have h: "fst (getNode J w nodeID a) = (502, ''Bad Gateway'')"
    using r[of False] by (cases "getNodeData J w nodeID False a") (simp add: getNode_def)
  show ?thesis using r k h by simp
qed

lemma fetch_down42_empty:
  "fst (fetchNodeData down42 ''42'' empty0) =
     Inl (Wrap ''error fetching node statistics'' (External ''context deadline exceeded''))"
  by (simp add: fixture_defs empty0_def fetchNodeData_def getNodeTwinID_def lruGetTwin_def Let_def)

theorem probe_failure_bad_gateway_witness:
  "str (GetRedisKey down42 (getNodeKey ''42'') empty0) = []
 \<and> fst (fetchNodeData down42 ''42'' empty0)
      = Inl (Wrap ''error fetching node statistics'' (External ''context deadline exceeded''))
 \<and> redisDEL down42 = None
 \<and> fst (getNodeData J42 down42 ''42'' True empty0)
      = Inl (Wrap ''error fetching node statistics: context deadline exceeded'' ErrBadGateway)
 \<and> redis (snd (getNodeData J42 down42 ''42'' True empty0)) (getNodeKey ''42'') = None
 \<and> fst (getNode J42 down42 ''42'' empty0) = (502, ''Bad Gateway'')"
proof -
  have h1: "str (GetRedisKey down42 (getNodeKey ''42'') empty0) = []"
    by (simp add: empty0_def GetRedisKey_def str_def fixture_defs)
  have h3: "\<not> errors_Is (Wrap ''error fetching node statistics'' (External ''context deadline exceeded'')) ErrNodeNotFound"
    by simp
  have h4: "redisDEL down42 = None" by (simp add: fixture_defs)
  show ?thesis
    using probe_failure_bad_gateway [OF h1 fetch_down42_empty h3 h4, of J42 True] h1 h4
    by (simp add: fetch_down42_empty J42_def)
qed

section \<open>What the marker does to the snapshot\<close>

text \<open>
  C1, as stated, at node 42: its snapshot is in the store and \<open>listNodes\<close> shows its four
  cores. The forced fetch fails. Afterwards the key holds the words \<open>likely down\<close> in place
  of the snapshot, and \<open>listNodes\<close> shows the node as \<open>likely down\<close> with the Directory
  row's own figures, not the four cores that were cached.
\<close>

theorem snapshot_kept_counterexample:
  "redis cached42 (getNodeKey ''42'') = Some (json42, 30 * 60)
 \<and> Deserialize J42 json42 = Inr info42
 \<and> map TotalResources (snd (fst (listNodes (getNodeCapacity J42 down42) down42 50 0 [] [] cached42)))
     = [total42]
 \<and> fst (getNodeData J42 down42 ''42'' True cached42) = Inl ErrLikelyDown
 \<and> redis (snd (getNodeData J42 down42 ''42'' True cached42)) (getNodeKey ''42'')
     = Some (''likely down'', 10 * 60)
 \<and> map Status (snd (fst (listNodes (getNodeCapacity J42 down42) down42 50 0 [] []
                             (snd (getNodeData J42 down42 ''42'' True cached42)))))
     = [''likely down'']
 \<and> map TotalResources (snd (fst (listNodes (getNodeCapacity J42 down42) down42 50 0 [] []
                             (snd (getNodeData J42 down42 ''42'' True cached42)))))
     \<noteq> [total42]"
  by (simp add: eval_defs json42_def info42_def total42_def)

text \<open>
  C1, amended. The node's key holds a live snapshot and the forced fetch fails with an
  error that is not \<open>ErrNodeNotFound\<close>. Then the marker replaces the snapshot under the
  key, and for the marker's 10 minutes the store answers \<open>likely down\<close> for the node and
  \<open>listNodes\<close>, on a page that begins with the node's row, reports that row with status
  \<open>likely down\<close>, its location filled in, and its capacity fields as the Directory gave
  them, and goes on to the other rows from the same state: whatever \<open>getNodeCapacity\<close>
  is, it is not consulted for the node, since capacity is attached to nodes that are
  \<open>up\<close> only.
\<close>

theorem failed_probe_overwrites_snapshot:
  assumes "redisGET w = None" and "redisSET w = None"
    and "redis a (getNodeKey (Sprint (NodeID n))) = Some (v, expires)"
    and "now a < expires"
    and "v \<noteq> []"
    and "Deserialize J v = Inr snapshot"
    and "fst (fetchNodeData w (Sprint (NodeID n)) a) = Inl err"
    and "\<not> errors_Is err ErrNodeNotFound"
    and "d < 10 * 60" and "redisGET w' = None"
  shows "GetRedisKey w' (getNodeKey (Sprint (NodeID n)))
           (advance d (snd (getNodeData J w (Sprint (NodeID n)) True a))) = Inr ''likely down''
       \<and> listNodesLoop capacityOf w' (n # ns) (advance d (snd (getNodeData J w (Sprint (NodeID n)) True a)))
           = (n\<lparr>Status := ''likely down'', Location := \<lparr>Country = country n, City = city n\<rparr>\<rparr>
                # fst (listNodesLoop capacityOf w' ns
                        (advance d (snd (getNodeData J w (Sprint (NodeID n)) True a)))),
              snd (listNodesLoop capacityOf w' ns
                     (advance d (snd (getNodeData J w (Sprint (NodeID n)) True a)))))"
proof -
  let ?a' = "snd (getNodeData J w (Sprint (NodeID n)) True a)"
  have m: "redis ?a' (getNodeKey (Sprint (NodeID n))) = Some (''likely down'', now a + 10 * 60)"
    using getNodeData_on_failure_with_value(2)[OF assms(1,3-8) assms(2)] .
  have t: "now ?a' = now a"
    using getNodeData_on_failure_with_value(3)[OF assms(1,3-8)] .
  have "now ?a' + d < now a + 10 * 60" using t assms(9) by simp
  then have g: "GetRedisKey w' (getNodeKey (Sprint (NodeID n))) (advance d ?a') = Inr ''likely down''"
    using status_of_marker[OF m _ assms(10)] by simp
  have "listNodesLoop capacityOf w' (n # ns) (advance d ?a')
          = (n\<lparr>Status := ''likely down'', Location := \<lparr>Country = country n, City = city n\<rparr>\<rparr>
               # fst (listNodesLoop capacityOf w' ns (advance d ?a')),
             snd (listNodesLoop capacityOf w' ns (advance d ?a')))"
    using g by (simp add: str_def case_prod_beta)
  with g show ?thesis by simp
qed

lemma Sprint_row42: "Sprint (NodeID row42) = ''42''"
  by (simp add: row42_def Sprint_def)

theorem failed_probe_overwrites_snapshot_witness:
  "redisGET down42 = None \<and> redisSET down42 = None
 \<and> redis cached42 (getNodeKey (Sprint (NodeID row42))) = Some (json42, 30 * 60)
 \<and> Deserialize J42 json42 = Inr info42
 \<and> fst (fetchNodeData down42 (Sprint (NodeID row42)) cached42)
      = Inl (Wrap ''error fetching node statistics'' (External ''context deadline exceeded''))
 \<and> GetRedisKey up42 (getNodeKey (Sprint (NodeID row42)))
      (advance 599 (snd (getNodeData J42 down42 (Sprint (NodeID row42)) True cached42)))
      = Inr ''likely down''
 \<and> listNodesLoop (getNodeCapacity J42 up42) up42 [row42]
      (advance 599 (snd (getNodeData J42 down42 (Sprint (NodeID row42)) True cached42)))
      = ([row42\<lparr>Status := ''likely down'',
                 Location := \<lparr>Country = country row42, City = city row42\<rparr>\<rparr>],
         advance 599 (snd (getNodeData J42 down42 (Sprint (NodeID row42)) True cached42)))
 \<and> TotalResources (row42\<lparr>Status := ''likely down'',
                 Location := \<lparr>Country = country row42, City = city row42\<rparr>\<rparr>) \<noteq> total42"
proof -
  have h1: "redisGET down42 = None" and h2: "redisSET down42 = None"
    by (simp_all add: fixture_defs)
  have h3: "redis cached42 (getNodeKey (Sprint (NodeID row42))) = Some (json42, 30 * 60)"
    by (simp add: fixture_defs Sprint_row42)
  have h4: "now cached42 < 30 * 60" by (simp add: fixture_defs)
  have h5: "json42 \<noteq> []" by (simp add: json42_def)
  have h6: "Deserialize J42 json42 = Inr info42" by (simp add: Deserialize_def J42_def)
  have h7: "fst (fetchNodeData down42 (Sprint (NodeID row42)) cached42)
      = Inl (Wrap ''error fetching node statistics'' (External ''context deadline exceeded''))"
    using fetch_down42 by (simp only: Sprint_row42)
  have h8: "\<not> errors_Is (Wrap ''error fetching node statistics'' (External ''context deadline exceeded'')) ErrNodeNotFound"
    by simp
  have h9: "(599::nat) < 10 * 60" by simp
  have h10: "redisGET up42 = None" by (simp add: fixture_defs)
  note T = failed_probe_overwrites_snapshot
             [OF h1 h2 h3 h4 h5 h6 h7 h8 h9 h10, of "getNodeCapacity J42 up42" "[]"]
  have l: "listNodesLoop (getNodeCapacity J42 up42) up42 [row42]
      (advance 599 (snd (getNodeData J42 down42 (Sprint (NodeID row42)) True cached42)))
      = ([row42\<lparr>Status := ''likely down'',
                 Location := \<lparr>Country = country row42, City = city row42\<rparr>\<rparr>],
         advance 599 (snd (getNodeData J42 down42 (Sprint (NodeID row42)) True cached42)))"
    using T [THEN conjunct2] by (simp only: listNodesLoop.simps(1) fst_conv snd_conv)
  have c: "TotalResources (row42\<lparr>Status := ''likely down'',
                 Location := \<lparr>Country = country row42, City = city row42\<rparr>\<rparr>) \<noteq> total42"
    by (simp add: row42_def total42_def)
  show ?thesis
    by (intro conjI) (rule h1 h2 h3 h6 h7 T [THEN conjunct1] l c)+
qed

text \<open>
  C2, at node 42 after the failed forced fetch: the key holds the marker, a non-forced
  \<open>getNodeData\<close> returns the marker's words as the payload, with no error, and \<open>getNode\<close>
  answers 200 with the body \<open>likely down\<close>. The test for a cached value is only that it is
  not empty, whereas \<open>getNodeStatus\<close> and \<open>listNodes\<close> tell the marker from a snapshot.
\<close>

theorem marker_served_as_payload:
  "redis (snd (getNodeData J42 down42 ''42'' True cached42)) (getNodeKey ''42'')
     = Some (''likely down'', 10 * 60)
 \<and> fst (getNodeData J42 down42 ''42'' False (snd (getNodeData J42 down42 ''42'' True cached42)))
     = Inr ''likely down''
 \<and> fst (getNode J42 down42 ''42'' (snd (getNodeData J42 down42 ''42'' True cached42)))
     = (200, ''likely down'')"
  by (simp add: eval_defs json42_def)

section \<open>Reading twice\<close>

text \<open>
  C9. When a non-forced \<open>getNodeData\<close> returns a payload, the next non-forced call for
  the same node, with nothing written and no time passed in between, returns the same
  bytes and changes nothing, whatever the Directory and the node would answer by then.
  The store is taken to be reachable (the first call's \<open>SET\<close> and the second call's
  \<open>GET\<close> arrive), and the payload is not empty, as no JSON text is.
\<close>

theorem getNodeData_twice:
  assumes "getNodeData J w nodeID False a = (Inr p, a1)"
    and "p \<noteq> []"
    and "redisSET w = None"
    and "redisGET w' = None"
  shows "getNodeData J w' nodeID False a1 = (Inr p, a1)"
proof -
  let ?key = "getNodeKey nodeID"
  have "\<exists>e. redis a1 ?key = Some (p, e) \<and> now a1 < e"
  proof (cases "str (GetRedisKey w ?key a) = []")
    case False
    then have eq: "a1 = a \<and> p = str (GetRedisKey w ?key a)"
      using assms(1) by (auto simp add: getNodeData_def)
    with False show ?thesis
      by (auto simp add: GetRedisKey_def str_def split: option.splits sum.splits if_splits)
  next
    case True
    obtain r af where f: "fetchNodeData w nodeID a = (r, af)" by (cases "fetchNodeData w nodeID a")
    have fr: "now af = now a" using fetchNodeData_frame[of w nodeID a] f by simp
    from assms(1) True f obtain nodeInfo where "r = Inr nodeInfo"
      and "Serialize J nodeInfo = Inr p"
      and "a1 = snd (SetRedisKey w ?key p (30 * 60) af)"
      by (auto simp add: getNodeData_def Let_def checkLikelyDown_def
               split: sum.splits prod.splits if_splits)
    then show ?thesis using assms(3) by (simp add: SetRedisKey_def)
  qed
  then obtain e where "redis a1 ?key = Some (p, e)" and "now a1 < e" by blast
  then show ?thesis
    using assms(2,4) by (simp add: getNodeData_def GetRedisKey_def str_def)
qed

lemma first_fetch42:
  "getNodeData J42 up42 ''42'' False empty0
     = (Inr json42, snd (getNodeData J42 up42 ''42'' False empty0))"
  by (simp add: fixture_defs empty0_def getNodeData_def GetRedisKey_def str_def fetchNodeData_def
        getNodeTwinID_def lruGetTwin_def getNodeHypervisor_def getNodeDMI_def Let_def
        Serialize_def SetRedisKey_def info42_def)

theorem getNodeData_twice_witness:
  "getNodeData J42 up42 ''42'' False empty0
     = (Inr json42, snd (getNodeData J42 up42 ''42'' False empty0))
 \<and> json42 \<noteq> [] \<and> redisSET up42 = None \<and> redisGET down42 = None
 \<and> fst (getNodeData J42 down42 ''42'' False (snd (getNodeData J42 up42 ''42'' False empty0)))
      = Inr json42"
proof -
  have h2: "json42 \<noteq> []" by (simp add: json42_def)
  have h3: "redisSET up42 = None" and h4: "redisGET down42 = None"
    by (simp_all add: fixture_defs)
  have "getNodeData J42 down42 ''42'' False (snd (getNodeData J42 up42 ''42'' False empty0))
          = (Inr json42, snd (getNodeData J42 up42 ''42'' False empty0))"
    using getNodeData_twice [OF first_fetch42 h2 h3 h4] .
  then have "fst (getNodeData J42 down42 ''42'' False (snd (getNodeData J42 up42 ''42'' False empty0)))
          = Inr json42"
    by (simp only: fst_conv)
  with first_fetch42 h2 h3 h4 show ?thesis by blast
qed

section \<open>The lifetime of a twin id\<close>

lemma lastTick_bounds:
  assumes "lruCreated a \<le> t"
  shows "lastTick a t \<le> t \<and> t < lastTick a t + cleanupInterval"
proof -
  define x where "x = t - lruCreated a"
  have 0: "x div 180 * 180 + x mod 180 = x" by (rule div_mult_mod_eq)
  have m: "x mod 180 < 180" by simp
  have 1: "(x div 180) * 180 \<le> x" and 2: "x < (x div 180) * 180 + 180"
    using 0 m by linarith+
  have 3: "lastTick a t = lruCreated a + (x div 180) * 180"
    by (simp add: lastTick_def cleanupInterval_def x_def)
  have 4: "t = lruCreated a + x" using assms by (simp add: x_def)
  have 5: "cleanupInterval = 180" by (simp add: cleanupInterval_def)
  show ?thesis using 1 2 3 4 5 by linarith
qed

lemma placed_entry:
  assumes "lruGetTwin a nodeID = None"
    and "queryTwinId w nodeID = Inr (twinID # others)"
  shows "getNodeTwinID w nodeID a =
           (Inr twinID, a\<lparr>directoryQueries := directoryQueries a + 1,
                           lruTwin := (lruTwin a)(nodeID \<mapsto> (twinID, now a + defaultExpiration))\<rparr>)"
  using assms by (simp add: getNodeTwinID_def Let_def)

lemma advance_keeps_items:
  assumes "lruTwin (advance d a) k = Some item"
  shows "lruTwin a k = Some item"
proof (cases "now a < lastTick a (now a + d) \<and> lastTick a (now a + d) \<le> now a + d")
  case True
  then have "DeleteExpired (lastTick a (now a + d)) (lruTwin a) k = Some item"
    using assms by (simp add: advance_def Let_def)
  then show ?thesis
    by (cases "lruTwin a k") (auto simp add: DeleteExpired_def split: if_splits)
next
  case False
  then have "lruTwin (advance d a) = lruTwin a" by (auto simp add: advance_def Let_def)
  then show ?thesis using assms by simp
qed

lemma now_advance: "now (advance d a) = now a + d"
  by (simp add: advance_def Let_def)

lemma served_while_fresh:
  assumes "lruTwin a nodeID = Some (twinID, now a + defaultExpiration)"
    and "lruGetTwin (advance d a) nodeID \<noteq> None"
  shows "d \<le> defaultExpiration"
proof -
  from assms(2) obtain v e where i: "lruTwin (advance d a) nodeID = Some (v, e)"
    and f: "\<not> now (advance d a) > e"
    by (cases "lruTwin (advance d a) nodeID") (auto simp add: lruGetTwin_def split: if_splits)
  have "lruTwin a nodeID = Some (v, e)" using advance_keeps_items[OF i] .
  then have "e = now a + defaultExpiration" using assms(1) by simp
  then show ?thesis using f by (simp add: now_advance)
qed

lemma purged_after_tick:
  assumes "lruTwin a nodeID = Some (twinID, now a + defaultExpiration)"
    and "lruCreated a \<le> now a"
    and "defaultExpiration + cleanupInterval \<le> d"
  shows "lruTwin (advance d a) nodeID = None"
proof -
  have c: "lruCreated a \<le> now a + d" using assms(2) by simp
  have b: "lastTick a (now a + d) \<le> now a + d \<and> now a + d < lastTick a (now a + d) + cleanupInterval"
    using lastTick_bounds[OF c] .
  then have "now a + defaultExpiration < lastTick a (now a + d)" using assms(3) by linarith
  then show ?thesis using assms(1) b
    by (simp add: advance_def Let_def DeleteExpired_def)
qed

lemma miss_asks_directory:
  assumes "lruGetTwin a nodeID = None"
  shows "directoryQueries (snd (getNodeTwinID w nodeID a)) = directoryQueries a + 1
       \<and> fst (getNodeTwinID w nodeID a) =
           (case queryTwinId w nodeID of
              Inl err \<Rightarrow> Inl (Errorf ''failed to query node '' err)
            | Inr [] \<Rightarrow> Inl ErrNodeNotFound
            | Inr (twinID # _) \<Rightarrow> Inr twinID)"
  using assms by (simp add: getNodeTwinID_def Let_def split: sum.splits list.splits)

text \<open>
  C8. \<open>getNodeTwinID\<close> misses the identity cache, the Directory answers, and the twin id
  is placed in the cache. From then on, with time passing and nothing else happening:
  if the entry is still served from the cache, at most 10 minutes have passed; after 15
  minutes or more the entry is no longer in the cache at all; and after more than 10
  minutes \<open>getNodeTwinID\<close> asks the Directory again and answers what the Directory says.
  \<open>Setup\<close> creates the cache with 2 and 3 minutes, so the entry is in fact served for 2
  minutes and purged within 5 (\<open>served_while_fresh\<close>, \<open>purged_after_tick\<close>), inside
  the bounds of 10 and 15.
\<close>

theorem twin_entry_lifetime:
  assumes "lruGetTwin a nodeID = None"
    and "queryTwinId w nodeID = Inr (twinID # others)"
    and "lruCreated a \<le> now a"
  shows "lruTwin (snd (getNodeTwinID w nodeID a)) nodeID = Some (twinID, now a + defaultExpiration)
       \<and> (\<forall>d. lruGetTwin (advance d (snd (getNodeTwinID w nodeID a))) nodeID \<noteq> None \<longrightarrow> d \<le> 10 * 60)
       \<and> (\<forall>d. 15 * 60 \<le> d \<longrightarrow> lruTwin (advance d (snd (getNodeTwinID w nodeID a))) nodeID = None)
       \<and> (\<forall>d w'. 10 * 60 < d \<longrightarrow>
             directoryQueries (snd (getNodeTwinID w' nodeID (advance d (snd (getNodeTwinID w nodeID a)))))
               = directoryQueries (advance d (snd (getNodeTwinID w nodeID a))) + 1
           \<and> fst (getNodeTwinID w' nodeID (advance d (snd (getNodeTwinID w nodeID a)))) =
               (case queryTwinId w' nodeID of
                  Inl err \<Rightarrow> Inl (Errorf ''failed to query node '' err)
                | Inr [] \<Rightarrow> Inl ErrNodeNotFound
                | Inr (twinID # _) \<Rightarrow> Inr twinID))"
proof -
  let ?a1 = "snd (getNodeTwinID w nodeID a)"
  have p: "lruTwin ?a1 nodeID = Some (twinID, now ?a1 + defaultExpiration)"
    and c: "lruCreated ?a1 \<le> now ?a1" and n: "now ?a1 = now a"
    using placed_entry[OF assms(1,2)] assms(3) by simp_all
  have s: "d \<le> 10 * 60" if "lruGetTwin (advance d ?a1) nodeID \<noteq> None" for d
    using served_while_fresh[OF p that] by (simp add: defaultExpiration_def)
  have g: "lruTwin (advance d ?a1) nodeID = None" if "15 * 60 \<le> d" for d
    using purged_after_tick[OF p c] that by (simp add: defaultExpiration_def cleanupInterval_def)
  have m: "lruGetTwin (advance d ?a1) nodeID = None" if "10 * 60 < d" for d
  proof (rule ccontr)
    assume "lruGetTwin (advance d ?a1) nodeID \<noteq> None"
    then have "d \<le> 10 * 60" by (rule s)
    with that show False by simp
  qed
  have q: "directoryQueries (snd (getNodeTwinID w' nodeID (advance d ?a1)))
               = directoryQueries (advance d ?a1) + 1
           \<and> fst (getNodeTwinID w' nodeID (advance d ?a1)) =
               (case queryTwinId w' nodeID of
                  Inl err \<Rightarrow> Inl (Errorf ''failed to query node '' err)
                | Inr [] \<Rightarrow> Inl ErrNodeNotFound
                | Inr (twinID # _) \<Rightarrow> Inr twinID)" if "10 * 60 < d" for d w'
    using miss_asks_directory[OF m[OF that]] .
  have p': "lruTwin ?a1 nodeID = Some (twinID, now a + defaultExpiration)"
    using p n by (simp only:)
  show ?thesis
    by (intro conjI allI impI) (rule p' | erule s | erule g | erule q [THEN conjunct1] | erule q [THEN conjunct2])+
qed

theorem twin_entry_lifetime_witness:
  "lruGetTwin empty0 ''42'' = None \<and> queryTwinId up42 ''42'' = Inr [7] \<and> lruCreated empty0 \<le> now empty0
 \<and> lruTwin (snd (getNodeTwinID up42 ''42'' empty0)) ''42'' = Some (7, now empty0 + defaultExpiration)
 \<and> lruGetTwin (advance 60 (snd (getNodeTwinID up42 ''42'' empty0))) ''42'' = Some 7
 \<and> (60::nat) \<le> 10 * 60
 \<and> lruTwin (advance 900 (snd (getNodeTwinID up42 ''42'' empty0))) ''42'' = None
 \<and> fst (getNodeTwinID gone42 ''42'' (advance 601 (snd (getNodeTwinID up42 ''42'' empty0))))
      = Inl ErrNodeNotFound"
proof -
  have h1: "lruGetTwin empty0 ''42'' = None" by (simp add: empty0_def Setup_def lruGetTwin_def)
  have h2: "queryTwinId up42 ''42'' = Inr [7]" by (simp add: up42_def)
  have h3: "lruCreated empty0 \<le> now empty0" by (simp add: empty0_def Setup_def)
  note T = twin_entry_lifetime [OF h1 h2 h3]
  have s: "lruGetTwin (advance 60 (snd (getNodeTwinID up42 ''42'' empty0))) ''42'' = Some 7"
    by (simp add: empty0_def Setup_def up42_def getNodeTwinID_def lruGetTwin_def Let_def advance_def
          lastTick_def cleanupInterval_def defaultExpiration_def)
  then have s': "lruGetTwin (advance 60 (snd (getNodeTwinID up42 ''42'' empty0))) ''42'' \<noteq> None"
    by simp
  have b: "(60::nat) \<le> 10 * 60"
    using T [THEN conjunct2, THEN conjunct1, THEN spec, of 60] s' by blast
  have p: "lruTwin (advance 900 (snd (getNodeTwinID up42 ''42'' empty0))) ''42'' = None"
    using T [THEN conjunct2, THEN conjunct2, THEN conjunct1, THEN spec, of 900] by simp
  have q: "queryTwinId gone42 ''42'' = Inr []" by (simp add: gone42_def)
  have r: "fst (getNodeTwinID gone42 ''42'' (advance 601 (snd (getNodeTwinID up42 ''42'' empty0))))
      = Inl ErrNodeNotFound"
    using T [THEN conjunct2, THEN conjunct2, THEN conjunct2, THEN spec, THEN spec, of 601 gone42] q
    by simp
  show ?thesis
    by (intro conjI) (rule h1 h2 h3 T [THEN conjunct1] s b p r)+
qed

section \<open>What the store holds\<close>

lemma storedOK_delete:
  "storedOK J a \<Longrightarrow> storedOK J (snd (DeleteRedisKey w key a))"
  by (auto simp add: storedOK_def DeleteRedisKey_def split: option.splits if_splits)

lemma storedOK_set:
  assumes "storedOK J a" and "v = ''likely down'' \<or> (\<exists>nodeInfo. Serialize J nodeInfo = Inr v)"
  shows "storedOK J (snd (SetRedisKey w key v ttl a))"
  using assms by (auto simp add: storedOK_def SetRedisKey_def split: option.splits if_splits)

lemma storedOK_frame:
  "redis a' = redis a \<Longrightarrow> storedOK J a \<Longrightarrow> storedOK J a'"
  by (simp add: storedOK_def)

lemma storedOK_getNodeData:
  assumes "storedOK J a"
  shows "storedOK J (snd (getNodeData J w nodeID force a))"
proof -
  obtain r a1 where f: "fetchNodeData w nodeID a = (r, a1)" by (cases "fetchNodeData w nodeID a")
  have "redis a1 = redis a" using fetchNodeData_frame[of w nodeID a] f by simp
  then have ok1: "storedOK J a1" using assms by (rule storedOK_frame)
  let ?val = "str (GetRedisKey w (getNodeKey nodeID) a)"
  show ?thesis
  proof (cases "?val \<noteq> [] \<and> \<not> force")
    case True
    then show ?thesis using assms by (simp add: getNodeData_def)
  next
    case False
    show ?thesis
    proof (cases r)
      case (Inl err)
      have d: "storedOK J (snd (DeleteRedisKey w (getNodeKey nodeID) a1))"
        using ok1 by (rule storedOK_delete)
      have m: "storedOK J (snd (checkLikelyDown J w ?val nodeID err a1))"
      proof (cases "Deserialize J ?val")
        case (Inl e)
        then show ?thesis using ok1 by (simp add: checkLikelyDown_def)
      next
        case (Inr n)
        have "storedOK J (snd (SetRedisKey w (getNodeKey nodeID) ''likely down'' (10 * 60) a1))"
          using ok1 by (rule storedOK_set) simp
        then show ?thesis using Inr by (simp add: checkLikelyDown_def case_prod_beta)
      qed
      show ?thesis using False f Inl d m
        by (auto simp add: getNodeData_def Let_def split: prod.splits)
    next
      case (Inr nodeInfo)
      show ?thesis
      proof (cases "Serialize J nodeInfo")
        case (Inl e)
        then show ?thesis using False f Inr ok1 by (auto simp add: getNodeData_def)
      next
        case s: (Inr p)
        have "storedOK J (snd (SetRedisKey w (getNodeKey nodeID) p (30 * 60) a1))"
          using ok1 by (rule storedOK_set) (use s in blast)
        then show ?thesis using False f Inr s
          by (auto simp add: getNodeData_def split: prod.splits)
      qed
    qed
  qed
qed

lemma storedOK_fold:
  "storedOK J a \<Longrightarrow> storedOK J (fold (\<lambda>nid s. snd (getNodeData J w (Sprint nid) True s)) nodeIds a)"
  by (induction nodeIds arbitrary: a) (simp_all add: storedOK_getNodeData)

lemma storedOK_cacheNodesInfo:
  assumes "storedOK J a"
  shows "storedOK J (cacheNodesInfo J w a)"
proof -
  have "storedOK J (a\<lparr>directoryQueries := directoryQueries a + 1\<rparr>)"
    using assms by (simp add: storedOK_def)
  then show ?thesis
    by (cases "queryNodeIds w") (simp_all add: cacheNodesInfo_def Let_def storedOK_fold)
qed

lemma storedOK_advance: "storedOK J a \<Longrightarrow> storedOK J (advance d a)"
  by (simp add: storedOK_def advance_def Let_def)

text \<open>
  C7. The store maps a key to at most one value. If every value in it is the marker
  \<open>likely down\<close> or a serialized \<open>NodeInfo\<close>, then so is every value after any history of
  \<open>getNodeData\<close> calls (forced or not, in any world), refresher cycles and waiting: the
  only writes are the deletion of the node's key, the marker, and a serialized snapshot.
\<close>

theorem stored_values_invariant:
  assumes "storedOK J a"
  shows "storedOK J (run J events a)"
  using assms
proof (induction events arbitrary: a)
  case Nil
  then show ?case by simp
next
  case (Cons e events)
  show ?case
  proof (cases e)
    case (CallGetNodeData w nodeID force)
    then show ?thesis using Cons by (simp add: storedOK_getNodeData)
  next
    case (CallCacheNodesInfo w)
    then show ?thesis using Cons by (simp add: storedOK_cacheNodesInfo)
  next
    case (Wait d)
    then show ?thesis using Cons by (simp add: storedOK_advance)
  qed
qed

theorem stored_values_invariant_witness:
  "storedOK J42 empty0
 \<and> storedOK J42 (run J42 [CallGetNodeData up42 ''42'' False, Wait 60, CallCacheNodesInfo down42] empty0)
 \<and> redis (run J42 [CallGetNodeData up42 ''42'' False, Wait 60, CallCacheNodesInfo down42] empty0)
      (getNodeKey ''42'') = Some (''likely down'', 660)"
proof -
  have h: "storedOK J42 empty0" by (simp add: storedOK_def empty0_def Setup_def)
  have e: "redis (run J42 [CallGetNodeData up42 ''42'' False, Wait 60, CallCacheNodesInfo down42] empty0)
      (getNodeKey ''42'') = Some (''likely down'', 660)"
    by (simp add: eval_defs cacheNodesInfo_def advance_def lastTick_def cleanupInterval_def
          defaultExpiration_def json42_def info42_def)
  show ?thesis
    using stored_values_invariant [OF h, of "[CallGetNodeData up42 ''42'' False, Wait 60, CallCacheNodesInfo down42]"] h e
    by blast
qed

section \<open>The limit of the refresher\<close>

lemma in_flight_step:
  assumes "step s c = Some c'"
    and "length (fetching c) + fetched c + (case sent c of None \<Rightarrow> 0 | Some _ \<Rightarrow> 1) = channelLimit c"
    and "channelLimit c \<le> maxGoRoutnes"
  shows "length (fetching c') + fetched c' + (case sent c' of None \<Rightarrow> 0 | Some _ \<Rightarrow> 1) = channelLimit c'
       \<and> channelLimit c' \<le> maxGoRoutnes"
proof (cases s)
  case Send
  then show ?thesis using assms
    by (auto split: option.splits list.splits if_splits)
next
  case Go
  then show ?thesis using assms by (auto split: option.splits)
next
  case (Return nid)
  with assms(1) have i: "nid \<in> set (fetching c)"
    and c': "c' = c\<lparr>fetching := remove1 nid (fetching c), fetched := fetched c + 1\<rparr>"
    by (auto split: if_splits)
  from i have "0 < length (fetching c)" by (rule length_pos_if_in_set)
  then have "length (remove1 nid (fetching c)) + 1 = length (fetching c)"
    using i by (simp add: length_remove1)
  then show ?thesis using assms(2,3) c' by simp
next
  case Receive
  then show ?thesis using assms by (auto split: if_splits option.splits)
next
  case Close
  then show ?thesis using assms by (auto split: if_splits)
qed

lemma in_flight_schedule:
  assumes "schedule steps c = Some c'"
    and "length (fetching c) + fetched c + (case sent c of None \<Rightarrow> 0 | Some _ \<Rightarrow> 1) = channelLimit c"
    and "channelLimit c \<le> maxGoRoutnes"
  shows "length (fetching c') + fetched c' + (case sent c' of None \<Rightarrow> 0 | Some _ \<Rightarrow> 1) = channelLimit c'
       \<and> channelLimit c' \<le> maxGoRoutnes"
  using assms
proof (induction steps arbitrary: c)
  case Nil
  then show ?case by simp
next
  case (Cons s steps)
  from Cons.prems(1) obtain c1 where s1: "step s c = Some c1" and r: "schedule steps c1 = Some c'"
    by (cases "step s c") auto
  have "length (fetching c1) + fetched c1 + (case sent c1 of None \<Rightarrow> 0 | Some _ \<Rightarrow> 1) = channelLimit c1
       \<and> channelLimit c1 \<le> maxGoRoutnes"
    using in_flight_step[OF s1 Cons.prems(2,3)] .
  then show ?case using Cons.IH[OF r] by blast
qed

text \<open>
  C10. In every state that one cycle over any list of node ids can reach, under any
  schedule of its goroutines, at most 30 workers are inside \<open>getNodeData\<close>; even
  together with the workers that have returned from it and not yet given their token
  back they are at most 30.
\<close>

theorem in_flight_bounded:
  assumes "schedule steps (startCycle nodeIds) = Some c"
  shows "length (fetching c) \<le> 30 \<and> length (fetching c) + fetched c \<le> 30"
proof -
  have "length (fetching c) + fetched c + (case sent c of None \<Rightarrow> 0 | Some _ \<Rightarrow> 1) = channelLimit c
       \<and> channelLimit c \<le> maxGoRoutnes"
    using in_flight_schedule[OF assms] by (simp add: startCycle_def)
  then show ?thesis by (simp add: maxGoRoutnes_def)
qed

theorem in_flight_bounded_witness:
  "schedule [Send, Go, Send, Go, Return 1, Receive, Send, Go] (startCycle [1, 2, 3])
     = Some \<lparr>rest = [], sent = None, fetching = [3, 2], fetched = 0, channelLimit = 2, closed = False\<rparr>
 \<and> length (fetching \<lparr>rest = [], sent = None, fetching = [3, 2], fetched = 0,
                       channelLimit = 2, closed = False\<rparr>) \<le> 30"
proof -
  have h: "schedule [Send, Go, Send, Go, Return 1, Receive, Send, Go] (startCycle [1, 2, 3])
     = Some \<lparr>rest = [], sent = None, fetching = [3, 2], fetched = 0, channelLimit = 2, closed = False\<rparr>"
    by (simp add: startCycle_def maxGoRoutnes_def)
  show ?thesis using in_flight_bounded [OF h] h by blast
qed

text \<open>With the channel full, the loop waits before it starts another worker.\<close>

lemma send_waits: "channelLimit c = maxGoRoutnes \<Longrightarrow> step Send c = None"
  by (simp split: option.splits list.splits)

end
